theory Spec2Isabelle
  imports Main "HOL-Library.AList"
begin

section \<open>Python string primitives\<close>

text \<open>
  The module \<^verbatim>\<open>netscape_cookies.py\<close> works on Python \<^verbatim>\<open>str\<close> values. A Python string
  is modelled as a \<^typ>\<open>string\<close>; each \<^typ>\<open>char\<close> is read as one code point in the range
  U+0000 .. U+00FF. The character classes below are those of CPython for this range.
  Code points above U+00FF are outside the model.

  Python integers are unbounded and modelled as \<^typ>\<open>int\<close>. The interpreter's
  configurable cap on the number of digits of an integer/string conversion
  (\<^verbatim>\<open>sys.set_int_max_str_digits\<close>) is not modelled: conversions are unbounded.
\<close>

abbreviation TAB :: char where "TAB \<equiv> CHR 0x09"
abbreviation NL :: char where "NL \<equiv> CHR 0x0A"

text \<open>\<^verbatim>\<open>c.isspace()\<close>: the white space that \<^verbatim>\<open>str.strip()\<close> removes.\<close>

definition isspace :: "char \<Rightarrow> bool" where
  "isspace c \<longleftrightarrow> (of_char c :: nat) \<in> {9, 10, 11, 12, 13, 28, 29, 30, 31, 32, 133, 160}"

text \<open>\<^verbatim>\<open>s.strip()\<close>: leading and trailing white space removed.\<close>

definition strip :: "string \<Rightarrow> string" where
  "strip s = rev (dropWhile isspace (rev (dropWhile isspace s)))"

text \<open>\<^verbatim>\<open>s.startswith(p)\<close>.\<close>

definition startswith :: "string \<Rightarrow> string \<Rightarrow> bool" where
  "startswith s p \<longleftrightarrow> take (length p) s = p"

text \<open>
  \<^verbatim>\<open>s.split(sep)\<close> for a separator of one character: the pieces between the separators,
  empty pieces kept; the result is never the empty list. \<open>split_step\<close> puts one
  character in front of the pieces of the rest of the string.
\<close>

definition split_step :: "char \<Rightarrow> char \<Rightarrow> string list \<Rightarrow> string list" where
  "split_step sep c pieces = (if c = sep then [] # pieces else (c # hd pieces) # tl pieces)"

fun split_on :: "char \<Rightarrow> string \<Rightarrow> string list" where
  "split_on sep [] = [[]]"
| "split_on sep (c # cs) = split_step sep c (split_on sep cs)"

text \<open>\<^verbatim>\<open>sep.join(parts)\<close>.\<close>

fun join :: "string \<Rightarrow> string list \<Rightarrow> string" where
  "join sep [] = []"
| "join sep [p] = p"
| "join sep (p # q # ps) = p @ sep @ join sep (q # ps)"

text \<open>
  \<^verbatim>\<open>s.replace(old, new)\<close>: every occurrence of \<open>old\<close> is replaced, scanning from the
  left and continuing after each replaced occurrence. For the empty \<open>old\<close> Python puts
  \<open>new\<close> before every character and at the end.
\<close>

function repl :: "string \<Rightarrow> string \<Rightarrow> string \<Rightarrow> string" where
  "repl old new s =
     (if s = [] \<or> old = [] then s
      else if startswith s old then new @ repl old new (drop (length old) s)
      else hd s # repl old new (tl s))"
  by pat_completeness auto
termination
  by (relation "measure (\<lambda>(old, new, s). length s)") auto

declare repl.simps [simp del]

definition replace :: "string \<Rightarrow> string \<Rightarrow> string \<Rightarrow> string" where
  "replace s old new =
     (if old = [] then new @ concat (map (\<lambda>c. c # new) s) else repl old new s)"

text \<open>
  \<^verbatim>\<open>s.upper()\<close>. Within U+0000 .. U+00FF the lower-case letters are a-z, U+00DF,
  U+00E0 .. U+00FE without U+00F7, U+00B5 and U+00FF. U+00DF becomes the two letters SS.
  The upper-case forms of U+00B5 and U+00FF (U+039C and U+0178) lie above U+00FF; the
  model leaves these two characters as they are. Both the real and the modelled result
  are then not ASCII, so a comparison with an ASCII literal, the only use the parser
  makes of \<^verbatim>\<open>upper()\<close>, has the same outcome.
\<close>

definition upper_char :: "char \<Rightarrow> string" where
  "upper_char c =
     (let n = (of_char c :: nat) in
      if 97 \<le> n \<and> n \<le> 122 then [char_of (n - 32)]
      else if n = 223 then ''SS''
      else if 224 \<le> n \<and> n \<le> 254 \<and> n \<noteq> 247 then [char_of (n - 32)]
      else [c])"

definition upper :: "string \<Rightarrow> string" where
  "upper s = concat (map upper_char s)"

text \<open>
  \<^verbatim>\<open>s.isdigit()\<close>: \<open>s\<close> is not empty and every character is a digit. Besides 0-9 the
  superscripts U+00B2, U+00B3 and U+00B9 are digits. \<^verbatim>\<open>s.isdecimal()\<close> accepts 0-9 only.
\<close>

definition isdecimal_char :: "char \<Rightarrow> bool" where
  "isdecimal_char c \<longleftrightarrow> 48 \<le> (of_char c :: nat) \<and> (of_char c :: nat) \<le> 57"

definition isdigit_char :: "char \<Rightarrow> bool" where
  "isdigit_char c \<longleftrightarrow> isdecimal_char c \<or> (of_char c :: nat) \<in> {178, 179, 185}"

definition isdigit :: "string \<Rightarrow> bool" where
  "isdigit s \<longleftrightarrow> s \<noteq> [] \<and> list_all isdigit_char s"

datatype error = ValueError

text \<open>
  \<^verbatim>\<open>int(s)\<close> for a string \<open>s\<close>: white space around the literal is skipped (here the
  characters 0x1C .. 0x1F do not count as white space), then comes an optional sign and
  a non-empty run of decimal digits, in which single underscores may separate digits.
  Anything else raises \<^verbatim>\<open>ValueError\<close>.
\<close>

definition int_space :: "char \<Rightarrow> bool" where
  "int_space c \<longleftrightarrow> (of_char c :: nat) \<in> {9, 10, 11, 12, 13, 32, 133, 160}"

definition digits_value :: "string \<Rightarrow> nat" where
  "digits_value s = foldl (\<lambda>a c. 10 * a + (of_char c - 48)) 0 s"

definition py_int :: "string \<Rightarrow> error + int" where
  "py_int s =
     (let t = rev (dropWhile int_space (rev (dropWhile int_space s)));
          neg = (t \<noteq> [] \<and> hd t = CHR ''-'');
          body = (if t \<noteq> [] \<and> (hd t = CHR ''-'' \<or> hd t = CHR ''+'') then tl t else t);
          groups = split_on (CHR ''_'') body
      in if list_all (\<lambda>g. g \<noteq> [] \<and> list_all isdecimal_char g) groups
         then Inr ((if neg then - 1 else 1) * int (digits_value (concat groups)))
         else Inl ValueError)"

text \<open>\<^verbatim>\<open>str(n)\<close> for an integer: decimal digits, with a minus sign when negative.\<close>

fun str_nat :: "nat \<Rightarrow> string" where
  "str_nat n =
     (if n < 10 then [char_of (48 + n)] else str_nat (n div 10) @ [char_of (48 + n mod 10)])"

declare str_nat.simps [simp del]

definition str_int :: "int \<Rightarrow> string" where
  "str_int i = (if i < 0 then CHR ''-'' # str_nat (nat (- i)) else str_nat (nat i))"

section \<open>The cookie record\<close>

text \<open>
  Class \<^verbatim>\<open>Cookie\<close>. The attribute \<^verbatim>\<open>value\<close> is the field \<open>value'\<close>. The attribute
  \<^verbatim>\<open>expiration\<close> is declared \<^verbatim>\<open>int\<close>, and \<^verbatim>\<open>save_to_file\<close> also accepts \<^verbatim>\<open>None\<close>:
  it is an \<^typ>\<open>int option\<close>.
\<close>

record Cookie =
  domain :: string
  flag :: bool
  path :: string
  secure :: bool
  expiration :: "int option"
  name :: string
  value' :: string

section \<open>The parser\<close>

text \<open>
  The record that \<^verbatim>\<open>parse_from_string\<close> builds from the fields of a line with at least
  seven fields. The only step that can raise is \<^verbatim>\<open>int\<close>, guarded by \<^verbatim>\<open>isdigit\<close>.
\<close>

definition cookie_of_fields :: "string list \<Rightarrow> error + Cookie" where
  "cookie_of_fields lineFields =
     (case (if isdigit (lineFields ! 4) then py_int (lineFields ! 4) else Inr 0) of
        Inl e \<Rightarrow> Inl e
      | Inr n \<Rightarrow>
          Inr \<lparr>domain = (if startswith (lineFields ! 0) ''#HttpOnly''
                         then replace (lineFields ! 0) ''#HttpOnly_'' ''''
                         else lineFields ! 0),
               flag = (upper (lineFields ! 1) = ''TRUE''),
               path = lineFields ! 2,
               secure = (upper (lineFields ! 3) = ''TRUE''),
               expiration = Some n,
               name = lineFields ! 5,
               value' = lineFields ! 6\<rparr>)"

text \<open>
  The body of the loop of \<^verbatim>\<open>parse_from_string\<close> for one line: \<open>Inr None\<close> when the
  line adds nothing (a comment, or fewer than seven fields), \<open>Inr (Some cookie)\<close> when
  it builds a cookie, \<open>Inl ValueError\<close> when \<^verbatim>\<open>int\<close> raises.
\<close>

definition is_comment :: "string \<Rightarrow> bool" where
  "is_comment line \<longleftrightarrow> startswith line ''#'' \<and> \<not> startswith line ''#HttpOnly_''"

definition line_cookie :: "string \<Rightarrow> error + Cookie option" where
  "line_cookie line =
     (if is_comment line then Inr None
      else
        let lineFields = split_on TAB (strip line) in
        if length lineFields \<ge> 7 then
          (case cookie_of_fields lineFields of Inl e \<Rightarrow> Inl e | Inr cookie \<Rightarrow> Inr (Some cookie))
        else Inr None)"

text \<open>
  The loop over the lines. The dictionary \<^verbatim>\<open>cookies\<close> is an association list in
  insertion order; \<^verbatim>\<open>cookies[name] = cookie\<close> is \<^const>\<open>AList.update\<close>, which overwrites
  the entry of a key in place and appends a new key. An exception ends the loop.
\<close>

fun parse_lines :: "string list \<Rightarrow> (string \<times> Cookie) list \<Rightarrow> error + (string \<times> Cookie) list" where
  "parse_lines [] cookies = Inr cookies"
| "parse_lines (line # lines) cookies =
     (case line_cookie line of
        Inl e \<Rightarrow> Inl e
      | Inr None \<Rightarrow> parse_lines lines cookies
      | Inr (Some cookie) \<Rightarrow> parse_lines lines (AList.update (name cookie) cookie cookies))"

definition parse_from_string :: "string \<Rightarrow> error + (string \<times> Cookie) list" where
  "parse_from_string input_string =
     parse_lines (filter (\<lambda>line. strip line \<noteq> '''') (split_on NL input_string)) []"

section \<open>The writers\<close>

text \<open>
  \<^verbatim>\<open>save_to_file\<close>: the three header lines and an empty line, then one line per cookie,
  each ended by a newline. \<open>expiration_text\<close> is the local \<^verbatim>\<open>expiration\<close> of the loop.
  The file system is a map from paths to file contents; failures of \<^verbatim>\<open>open\<close> are not
  modelled. The function returns the path.
\<close>

definition header :: string where
  "header = ''# Netscape HTTP Cookie File'' @ [NL]
          @ ''# http://curl.haxx.se/rfc/cookie_spec.html'' @ [NL]
          @ ''# This is a generated file!  Do not edit.'' @ [NL, NL]"

definition expiration_text :: "Cookie \<Rightarrow> string" where
  "expiration_text cookie =
     (case expiration cookie of
        None \<Rightarrow> ''''
      | Some n \<Rightarrow> if n > 0 then str_int n else '''')"

definition cookie_line :: "Cookie \<Rightarrow> string" where
  "cookie_line cookie =
     domain cookie @ [TAB] @ (if flag cookie then ''TRUE'' else ''FALSE'') @ [TAB]
     @ path cookie @ [TAB] @ (if secure cookie then ''TRUE'' else ''FALSE'') @ [TAB]
     @ expiration_text cookie @ [TAB] @ name cookie @ [TAB] @ value' cookie @ [NL]"

definition file_text :: "Cookie list \<Rightarrow> string" where
  "file_text cookies = header @ concat (map cookie_line cookies)"

definition save_to_file ::
  "Cookie list \<Rightarrow> string \<Rightarrow> (string \<rightharpoonup> string) \<Rightarrow> (string \<rightharpoonup> string) \<times> string" where
  "save_to_file cookies cookieFile fs = (fs(cookieFile \<mapsto> file_text cookies), cookieFile)"

text \<open>
  \<^verbatim>\<open>to_netscape_string\<close> takes dictionaries as a browser session returns them. Every key
  may be missing (\<open>None\<close>); the values have the types the source annotates or the
  interface documents: \<^verbatim>\<open>domain\<close>, \<^verbatim>\<open>path\<close>, \<^verbatim>\<open>name\<close> and \<^verbatim>\<open>value\<close> are strings,
  \<^verbatim>\<open>secure\<close> is a boolean, \<^verbatim>\<open>expiry\<close> is an integer or \<^verbatim>\<open>None\<close> (\<open>Some None\<close>).
  Floating-point expiries are outside the model.
\<close>

record raw_cookie =
  raw_domain :: "string option"
  raw_expiry :: "int option option"
  raw_path :: "string option"
  raw_secure :: "bool option"
  raw_name :: "string option"
  raw_value :: "string option"

text \<open>\<^verbatim>\<open>d.get(key, default)\<close> on one key, and \<^verbatim>\<open>str(b)\<close> for a boolean.\<close>

definition get_or :: "'a option \<Rightarrow> 'a \<Rightarrow> 'a" where
  "get_or v d = (case v of None \<Rightarrow> d | Some x \<Rightarrow> x)"

definition str_bool :: "bool \<Rightarrow> string" where
  "str_bool b = (if b then ''True'' else ''False'')"

definition include_sub_domain :: "raw_cookie \<Rightarrow> bool" where
  "include_sub_domain cookie =
     (let d = get_or (raw_domain cookie) '''' in if d \<noteq> '''' then startswith d ''.'' else False)"

definition expiry_text :: "raw_cookie \<Rightarrow> string" where
  "expiry_text cookie =
     (case get_or (raw_expiry cookie) None of
        None \<Rightarrow> ''0''
      | Some n \<Rightarrow> if n \<noteq> 0 then str_int n else ''0'')"

definition cookie_parts :: "raw_cookie \<Rightarrow> string list" where
  "cookie_parts cookie =
     [get_or (raw_domain cookie) '''',
      upper (str_bool (include_sub_domain cookie)),
      get_or (raw_path cookie) '''',
      upper (str_bool (get_or (raw_secure cookie) False)),
      expiry_text cookie,
      get_or (raw_name cookie) '''',
      get_or (raw_value cookie) '''']"

definition to_netscape_string :: "raw_cookie list \<Rightarrow> string" where
  "to_netscape_string cookie_data =
     join [NL] (map (\<lambda>parts. join [TAB] parts) (map cookie_parts cookie_data))"

section \<open>Auxiliary notions for the round trip\<close>

text \<open>
  The seven texts that \<^verbatim>\<open>save_to_file\<close> puts on the line of a cookie, and the three
  header lines it writes first. Both are used to state and prove facts about the written
  text; \<open>cookie_line_join\<close> and \<open>file_text_lines\<close> below relate them to \<open>cookie_line\<close> and
  \<open>file_text\<close>.
\<close>

definition cookie_fields :: "Cookie \<Rightarrow> string list" where
  "cookie_fields c =
     [domain c, if flag c then ''TRUE'' else ''FALSE'', path c,
      if secure c then ''TRUE'' else ''FALSE'', expiration_text c, name c, value' c]"

definition header_lines :: "string list" where
  "header_lines = [''# Netscape HTTP Cookie File'',
                   ''# http://curl.haxx.se/rfc/cookie_spec.html'',
                   ''# This is a generated file!  Do not edit.'']"

text \<open>
  \<open>no_tab_newline\<close> is the condition of the specification's round-trip property: no
  string attribute holds a tab or a newline. \<open>storable\<close> adds what the parser needs to
  read the written line back unchanged: the domain is not empty and starts neither with
  white space nor with \<open>#\<close>, the value is not empty and does not end with white space,
  and the expiration is a positive integer.
\<close>

definition plain :: "string \<Rightarrow> bool" where
  "plain f \<longleftrightarrow> TAB \<notin> set f \<and> NL \<notin> set f"

definition no_tab_newline :: "Cookie \<Rightarrow> bool" where
  "no_tab_newline c \<longleftrightarrow>
     plain (domain c) \<and> plain (path c) \<and> plain (name c) \<and> plain (value' c)"

definition storable :: "Cookie \<Rightarrow> bool" where
  "storable c \<longleftrightarrow>
     no_tab_newline c
     \<and> domain c \<noteq> '''' \<and> \<not> isspace (hd (domain c)) \<and> hd (domain c) \<noteq> CHR ''#''
     \<and> value' c \<noteq> '''' \<and> \<not> isspace (last (value' c))
     \<and> (case expiration c of None \<Rightarrow> False | Some n \<Rightarrow> 0 < n)"

section \<open>Example inputs\<close>

text \<open>Concrete cookies, dictionaries and lines at which the theorems below are evaluated.\<close>

definition raw_dot :: raw_cookie where
  "raw_dot = \<lparr>raw_domain = Some ''.x.com'', raw_expiry = None, raw_path = Some ''/'',
     raw_secure = Some True, raw_name = Some ''a'', raw_value = Some ''1''\<rparr>"

definition raw_plain :: raw_cookie where
  "raw_plain = \<lparr>raw_domain = None, raw_expiry = Some None, raw_path = Some ''/'',
     raw_secure = None, raw_name = Some ''b'', raw_value = Some ''2''\<rparr>"

definition raw_zero :: raw_cookie where
  "raw_zero = \<lparr>raw_domain = Some ''x.com'', raw_expiry = Some (Some 0), raw_path = Some ''/'',
     raw_secure = Some False, raw_name = Some ''a'', raw_value = Some ''1''\<rparr>"

definition cookie_neg :: Cookie where
  "cookie_neg = \<lparr>domain = ''example.com'', flag = True, path = ''/'', secure = False,
     expiration = Some (- 5), name = ''sid'', value' = ''abc''\<rparr>"

definition cookie_pos :: Cookie where
  "cookie_pos = \<lparr>domain = ''example.com'', flag = True, path = ''/'', secure = False,
     expiration = Some 5, name = ''sid'', value' = ''abc''\<rparr>"

definition line_eight :: string where
  "line_eight = join [TAB] [''d'', ''TRUE'', ''/'', ''FALSE'', ''5'', ''n'', ''v'', ''extra'']"

definition line_sid :: string where
  "line_sid = join [TAB] [''example.com'', ''FALSE'', ''/'', ''TRUE'', ''x'', ''sid'', ''abc'']"

definition cookie_sid :: Cookie where
  "cookie_sid = \<lparr>domain = ''example.com'', flag = False, path = ''/'', secure = True,
     expiration = Some 0, name = ''sid'', value' = ''abc''\<rparr>"

definition line_six :: string where
  "line_six = join [TAB] [''a'', ''b'', ''c'', ''d'', ''e'', ''f'']"

definition line_sid_old :: string where
  "line_sid_old = join [TAB] [''old.example.com'', ''TRUE'', ''/old'', ''FALSE'', ''7'', ''sid'', ''stale'']"

definition cookie_other :: Cookie where
  "cookie_other = \<lparr>domain = ''.x.com'', flag = False, path = ''/a b'', secure = True,
     expiration = Some 1700000000, name = ''sid'', value' = ''v 2''\<rparr>"

section \<open>Facts about the string primitives\<close>

lemma split_on_not_Nil [simp]: "split_on sep s \<noteq> []"
  by (induction s) (auto simp: split_step_def)

lemma split_on_append: "split_on sep (a @ sep # b) = split_on sep a @ split_on sep b"
  by (induction a) (auto simp: split_step_def)

lemma split_on_no_sep: "sep \<notin> set s \<Longrightarrow> split_on sep s = [s]"
  by (induction s) (auto simp: split_step_def)

lemma split_on_join:
  "ps \<noteq> [] \<Longrightarrow> \<forall>p\<in>set ps. sep \<notin> set p \<Longrightarrow> split_on sep (join [sep] ps) = ps"
proof (induction "[sep]" ps rule: join.induct)
  case 1
  then show ?case by simp
next
  case (2 p)
  then show ?case by (simp add: split_on_no_sep)
next
  case (3 p q ps)
  then show ?case by (simp add: split_on_append split_on_no_sep)
qed

lemma dropWhile_hd_id: "xs \<noteq> [] \<Longrightarrow> \<not> P (hd xs) \<Longrightarrow> dropWhile P xs = xs"
  by (cases xs) auto

lemma trim_id:
  assumes "xs \<noteq> []" "\<not> P (hd xs)" "\<not> P (last xs)"
  shows "rev (dropWhile P (rev (dropWhile P xs))) = xs"
proof -
  have "dropWhile P xs = xs" using assms by (simp add: dropWhile_hd_id)
  moreover have "dropWhile P (rev xs) = rev xs"
    using assms by (intro dropWhile_hd_id) (simp_all add: hd_rev)
  ultimately show ?thesis by simp
qed

lemma strip_id: "s \<noteq> [] \<Longrightarrow> \<not> isspace (hd s) \<Longrightarrow> \<not> isspace (last s) \<Longrightarrow> strip s = s"
  unfolding strip_def by (rule trim_id)

lemma digits_value_snoc: "digits_value (s @ [c]) = 10 * digits_value s + (of_char c - 48)"
  by (simp add: digits_value_def)

lemma str_nat_not_Nil: "str_nat n \<noteq> []"
  by (subst str_nat.simps) simp

lemma digit_char_decimal: "(d::nat) < 10 \<Longrightarrow> isdecimal_char (char_of (48 + d))"
proof -
  assume "d < 10"
  then have "(48 + d) mod 256 = 48 + d" by simp
  then show ?thesis using \<open>d < 10\<close> by (simp add: isdecimal_char_def)
qed

lemma str_nat_decimal: "list_all isdecimal_char (str_nat n)"
proof (induction n rule: str_nat.induct)
  case (1 n)
  show ?case
  proof (cases "n < 10")
    case True
    then show ?thesis by (subst str_nat.simps) (simp add: digit_char_decimal)
  next
    case False
    then show ?thesis using 1
      by (subst str_nat.simps) (simp add: digit_char_decimal)
  qed
qed

lemma digits_value_str_nat: "digits_value (str_nat n) = n"
proof (induction n rule: str_nat.induct)
  case (1 n)
  show ?case
  proof (cases "n < 10")
    case True
    then show ?thesis by (subst str_nat.simps) (simp add: digits_value_def)
  next
    case False
    then have "digits_value (str_nat (n div 10)) = n div 10" using 1 by simp
    moreover have "(48 + n mod 10) mod 256 = 48 + n mod 10"
      by (rule mod_less) (use mod_less_divisor[of 10 n] in linarith)
    ultimately show ?thesis using False
      by (subst str_nat.simps) (simp add: digits_value_snoc)
  qed
qed

lemma decimal_not_int_space: "isdecimal_char c \<Longrightarrow> \<not> int_space c"
  by (auto simp: isdecimal_char_def int_space_def)

lemma decimal_not_space: "isdecimal_char c \<Longrightarrow> \<not> isspace c"
  by (auto simp: isdecimal_char_def isspace_def)

lemma decimal_not_special: "isdecimal_char c \<Longrightarrow> c \<noteq> CHR ''-'' \<and> c \<noteq> CHR ''+'' \<and> c \<noteq> CHR ''_'' \<and> c \<noteq> TAB \<and> c \<noteq> NL"
  by (auto simp: isdecimal_char_def)

lemma py_int_decimal:
  assumes "s \<noteq> []" "list_all isdecimal_char s"
  shows "py_int s = Inr (int (digits_value s))"
proof -
  have hd: "isdecimal_char (hd s)" and last: "isdecimal_char (last s)"
    using assms by (auto simp: list_all_iff)
  have t: "rev (dropWhile int_space (rev (dropWhile int_space s))) = s"
    using assms(1) hd last decimal_not_int_space by (intro trim_id) auto
  have us: "CHR ''_'' \<notin> set s"
    using assms(2) decimal_not_special by (auto simp: list_all_iff)
  have sign: "hd s \<noteq> CHR ''-''" "hd s \<noteq> CHR ''+''"
    using hd decimal_not_special by auto
  show ?thesis
    unfolding py_int_def Let_def t
    using assms sign by (simp add: split_on_no_sep[OF us])
qed

lemma isdigit_decimal: "s \<noteq> [] \<Longrightarrow> list_all isdecimal_char s \<Longrightarrow> isdigit s"
  by (auto simp: isdigit_def isdigit_char_def list_all_iff)

lemma upper_TRUE: "upper ''TRUE'' = ''TRUE''" by (simp add: upper_def upper_char_def char_of_def bit_0)
lemma upper_FALSE: "upper ''FALSE'' = ''FALSE''" by (simp add: upper_def upper_char_def char_of_def bit_0)
lemma upper_True: "upper ''True'' = ''TRUE''" by (simp add: upper_def upper_char_def char_of_def bit_0)
lemma upper_False: "upper ''False'' = ''FALSE''" by (simp add: upper_def upper_char_def char_of_def bit_0)

section \<open>Facts about the serializers and the parser\<close>

lemma set_join: "set (join sep ps) \<subseteq> set sep \<union> \<Union> (set ` set ps)"
  by (induction sep ps rule: join.induct) auto

lemma startswith_dot: "startswith d ''.'' \<longleftrightarrow> d \<noteq> [] \<and> hd d = CHR ''.''"
  by (cases d) (auto simp: startswith_def)

lemma cookie_parts_flag:
  "cookie_parts c ! 1 =
     (if (\<exists>d. raw_domain c = Some d \<and> d \<noteq> '''' \<and> hd d = CHR ''.'') then ''TRUE'' else ''FALSE'')"
  by (cases "raw_domain c")
     (auto simp: cookie_parts_def include_sub_domain_def get_or_def str_bool_def upper_True
        upper_False startswith_dot)

lemma split_lines_to_netscape_string:
  assumes "cs \<noteq> []" "\<forall>c\<in>set cs. \<forall>p\<in>set (cookie_parts c). TAB \<notin> set p \<and> NL \<notin> set p"
  shows "split_on NL (to_netscape_string cs) = map (\<lambda>c. join [TAB] (cookie_parts c)) cs"
proof -
  have "\<forall>l\<in>set (map (\<lambda>c. join [TAB] (cookie_parts c)) cs). NL \<notin> set l"
  proof
    fix l assume "l \<in> set (map (\<lambda>c. join [TAB] (cookie_parts c)) cs)"
    then obtain c where c: "c \<in> set cs" "l = join [TAB] (cookie_parts c)" by auto
    show "NL \<notin> set l"
    proof
      assume "NL \<in> set l"
      then have "NL \<in> set [TAB] \<union> \<Union> (set ` set (cookie_parts c))"
        using set_join[of "[TAB]" "cookie_parts c"] c(2) by blast
      then show False using assms(2) c(1) by auto
    qed
  qed
  moreover have "map (\<lambda>c. join [TAB] (cookie_parts c)) cs \<noteq> []" using assms(1) by simp
  ultimately show ?thesis
    unfolding to_netscape_string_def map_map comp_def by (intro split_on_join) auto
qed

lemma parts_raw_dot: "cookie_parts raw_dot = [''.x.com'', ''TRUE'', ''/'', ''TRUE'', ''0'', ''a'', ''1'']"
  by (simp add: raw_dot_def cookie_parts_def get_or_def include_sub_domain_def startswith_def
      str_bool_def upper_True expiry_text_def)

lemma parts_raw_plain: "cookie_parts raw_plain = ['''', ''FALSE'', ''/'', ''FALSE'', ''0'', ''b'', ''2'']"
  by (simp add: raw_plain_def cookie_parts_def get_or_def include_sub_domain_def startswith_def
      str_bool_def upper_False expiry_text_def)

lemma str_int_pos_decimal: "0 < n \<Longrightarrow> list_all isdecimal_char (str_int n)"
  by (simp add: str_int_def str_nat_decimal)

lemma str_int_not_Nil: "str_int n \<noteq> []"
  by (simp add: str_int_def str_nat_not_Nil)

lemma expiration_text_no_TAB: "TAB \<notin> set (expiration_text c)"
proof (cases "expiration c")
  case None
  then show ?thesis by (simp add: expiration_text_def)
next
  case (Some n)
  show ?thesis
  proof (cases "0 < n")
    case True
    then have "list_all isdecimal_char (expiration_text c)"
      using Some by (simp add: expiration_text_def str_int_pos_decimal)
    then show ?thesis using decimal_not_special by (auto simp: list_all_iff)
  next
    case False
    then show ?thesis using Some by (simp add: expiration_text_def)
  qed
qed

lemma split_on_field: "sep \<notin> set f \<Longrightarrow> split_on sep (f @ sep # rest) = f # split_on sep rest"
  by (simp add: split_on_append split_on_no_sep)

lemma cookie_line_field4:
  assumes "TAB \<notin> set (domain c)" "TAB \<notin> set (path c)"
  shows "split_on TAB (cookie_line c) ! 4 = expiration_text c"
  using assms expiration_text_no_TAB[of c]
  by (simp add: cookie_line_def split_on_field)

lemma set_update_subset: "set (AList.update k v al) \<subseteq> insert (k, v) (set al)"
  by (induction al) auto

lemma parse_lines_keys:
  "parse_lines ls acc = Inr m \<Longrightarrow> \<forall>(k, c)\<in>set acc. name c = k \<Longrightarrow> \<forall>(k, c)\<in>set m. name c = k"
proof (induction ls arbitrary: acc)
  case Nil
  then show ?case by simp
next
  case (Cons l ls)
  show ?case
  proof (cases "line_cookie l")
    case (Inl e)
    then show ?thesis using Cons.prems by simp
  next
    case (Inr r)
    show ?thesis
    proof (cases r)
      case None
      then show ?thesis using Inr Cons by simp
    next
      case (Some c)
      then have "parse_lines ls (AList.update (name c) c acc) = Inr m"
        using Inr Cons.prems(1) by simp
      moreover have "\<forall>(k, c')\<in>set (AList.update (name c) c acc). name c' = k"
        using Cons.prems(2) set_update_subset[of "name c" c acc] by auto
      ultimately show ?thesis by (rule Cons.IH)
    qed
  qed
qed

lemma cookie_of_fields_take: "cookie_of_fields (take 7 fs) = cookie_of_fields fs"
  by (simp add: cookie_of_fields_def split: sum.splits)

lemma parse_lines_append:
  "parse_lines (xs @ ys) acc =
     (case parse_lines xs acc of Inl e \<Rightarrow> Inl e | Inr m \<Rightarrow> parse_lines ys m)"
  by (induction xs arbitrary: acc) (auto split: sum.splits option.splits)

lemma short_line_cookie:
  "length (split_on TAB (strip line)) < 7 \<Longrightarrow> line_cookie line = Inr None"
  by (simp add: line_cookie_def)

lemma parse_lines_removeAll:
  "line_cookie line = Inr None \<Longrightarrow> parse_lines (removeAll line ls) acc = parse_lines ls acc"
  by (induction ls arbitrary: acc) (auto split: sum.splits option.splits)

lemma lines_of_join:
  assumes "\<forall>l\<in>set ls. NL \<notin> set l"
  shows "filter (\<lambda>line. strip line \<noteq> '''') (split_on NL (join [NL] ls))
         = filter (\<lambda>line. strip line \<noteq> '''') ls"
proof (cases "ls = []")
  case True
  then show ?thesis by (simp add: strip_def)
next
  case False
  then show ?thesis using assms by (simp add: split_on_join)
qed

lemma parse_from_string_join:
  "\<forall>l\<in>set ls. NL \<notin> set l \<Longrightarrow>
   parse_from_string (join [NL] ls) = parse_lines (filter (\<lambda>line. strip line \<noteq> '''') ls) []"
  by (simp add: parse_from_string_def lines_of_join)

lemma parse_lines_other_names:
  "parse_lines ls m1 = Inr m \<Longrightarrow>
   \<forall>l\<in>set ls. \<forall>c. line_cookie l = Inr (Some c) \<longrightarrow> name c \<noteq> k \<Longrightarrow>
   map_of m k = map_of m1 k"
proof (induction ls arbitrary: m1)
  case Nil
  then show ?case by simp
next
  case (Cons l ls)
  show ?case
  proof (cases "line_cookie l")
    case (Inl e)
    then show ?thesis using Cons.prems by simp
  next
    case (Inr r)
    show ?thesis
    proof (cases r)
      case None
      then show ?thesis using Inr Cons by simp
    next
      case (Some c)
      then have "parse_lines ls (AList.update (name c) c m1) = Inr m"
        using Inr Cons.prems(1) by simp
      then have "map_of m k = map_of (AList.update (name c) c m1) k"
        using Cons.prems(2) by (intro Cons.IH) auto
      moreover have "name c \<noteq> k" using Cons.prems(2) Inr Some by simp
      ultimately show ?thesis by (simp add: update_conv')
    qed
  qed
qed

lemma parse_lines_distinct:
  "parse_lines ls acc = Inr m \<Longrightarrow> distinct (map fst acc) \<Longrightarrow> distinct (map fst m)"
proof (induction ls arbitrary: acc)
  case Nil
  then show ?case by simp
next
  case (Cons l ls)
  then show ?case
    by (auto split: sum.splits option.splits simp: distinct_update)
qed

lemma distinct_one_entry:
  "distinct (map fst m) \<Longrightarrow> map_of m k = Some v \<Longrightarrow> filter (\<lambda>e. fst e = k) m = [(k, v)]"
proof (induction m)
  case Nil
  then show ?case by simp
next
  case (Cons e m)
  show ?case
  proof (cases "fst e = k")
    case True
    then have "e = (k, v)" using Cons.prems(2) by (cases e) simp
    moreover have "filter (\<lambda>e. fst e = k) m = []"
      using Cons.prems(1) True by (force simp: filter_empty_conv image_iff)
    ultimately show ?thesis by simp
  next
    case False
    then show ?thesis using Cons by (cases e) auto
  qed
qed

section \<open>Facts about the round trip\<close>

lemma cookie_line_join: "cookie_line c = join [TAB] (cookie_fields c) @ [NL]"
  by (simp add: cookie_line_def cookie_fields_def)

lemma expiration_text_no_NL: "NL \<notin> set (expiration_text c)"
proof (cases "expiration c")
  case None
  then show ?thesis by (simp add: expiration_text_def)
next
  case (Some n)
  show ?thesis
  proof (cases "0 < n")
    case True
    then have "list_all isdecimal_char (expiration_text c)"
      using Some by (simp add: expiration_text_def str_int_pos_decimal)
    then show ?thesis using decimal_not_special by (auto simp: list_all_iff)
  next
    case False
    then show ?thesis using Some by (simp add: expiration_text_def)
  qed
qed

lemma storable_fields:
  assumes "storable c"
  shows "\<forall>p\<in>set (cookie_fields c). TAB \<notin> set p \<and> NL \<notin> set p"
  using assms expiration_text_no_TAB[of c] expiration_text_no_NL[of c]
  by (auto simp: storable_def no_tab_newline_def plain_def cookie_fields_def)

lemma join_fields_ends:
  assumes "storable c"
  shows "join [TAB] (cookie_fields c) \<noteq> []"
    and "hd (join [TAB] (cookie_fields c)) = hd (domain c)"
    and "last (join [TAB] (cookie_fields c)) = last (value' c)"
  using assms by (auto simp: storable_def cookie_fields_def)

lemma body_no_NL:
  assumes "storable c" shows "NL \<notin> set (join [TAB] (cookie_fields c))"
proof
  assume "NL \<in> set (join [TAB] (cookie_fields c))"
  then have "NL \<in> set [TAB] \<union> \<Union> (set ` set (cookie_fields c))"
    using set_join[of "[TAB]" "cookie_fields c"] by blast
  then show False using storable_fields[OF assms] by auto
qed

lemma startswith_hash: "startswith s ''#'' \<longleftrightarrow> s \<noteq> [] \<and> hd s = CHR ''#''"
  by (cases s) (auto simp: startswith_def)

lemma startswith_HttpOnly_hash: "startswith s ''#HttpOnly'' \<Longrightarrow> hd s = CHR ''#''"
  by (cases s) (auto simp: startswith_def)

lemma expiration_roundtrip:
  assumes "0 < n"
  shows "isdigit (str_int n)" and "py_int (str_int n) = Inr n"
proof -
  have s: "str_int n = str_nat (nat n)" using assms by (simp add: str_int_def)
  show "isdigit (str_int n)"
    unfolding s by (intro isdigit_decimal str_nat_not_Nil str_nat_decimal)
  have "py_int (str_nat (nat n)) = Inr (int (digits_value (str_nat (nat n))))"
    by (intro py_int_decimal str_nat_not_Nil str_nat_decimal)
  then show "py_int (str_int n) = Inr n"
    using assms by (simp add: s digits_value_str_nat)
qed

lemma cookie_of_fields_storable:
  assumes "storable c"
  shows "cookie_of_fields (cookie_fields c) = Inr c"
proof -
  obtain n where n: "expiration c = Some n" "0 < n"
    using assms by (auto simp: storable_def split: option.splits)
  have e: "expiration_text c = str_int n" using n by (simp add: expiration_text_def)
  have d: "\<not> startswith (domain c) ''#HttpOnly''"
    using assms startswith_HttpOnly_hash[of "domain c"] by (auto simp: storable_def)
  have f: "(upper (if flag c then ''TRUE'' else ''FALSE'') = ''TRUE'') = flag c"
    "(upper (if secure c then ''TRUE'' else ''FALSE'') = ''TRUE'') = secure c"
    by (simp_all add: upper_TRUE upper_FALSE)
  show ?thesis
    using d f n expiration_roundtrip[OF n(2)]
    by (simp add: cookie_of_fields_def cookie_fields_def e)
qed

lemma line_cookie_storable:
  assumes "storable c"
  shows "line_cookie (join [TAB] (cookie_fields c)) = Inr (Some c)"
proof -
  let ?b = "join [TAB] (cookie_fields c)"
  have hd: "\<not> isspace (hd ?b)" "hd ?b \<noteq> CHR ''#''" and last: "\<not> isspace (last ?b)"
    using assms join_fields_ends[OF assms] by (auto simp: storable_def)
  have strip: "strip ?b = ?b"
    using join_fields_ends(1)[OF assms] hd(1) last by (rule strip_id)
  have nc: "\<not> is_comment ?b" using hd(2) by (simp add: is_comment_def startswith_hash)
  have "cookie_fields c \<noteq> []" by (simp add: cookie_fields_def)
  then have split: "split_on TAB ?b = cookie_fields c"
    using storable_fields[OF assms] by (intro split_on_join) auto
  have len: "length (cookie_fields c) = 7" by (simp add: cookie_fields_def)
  show ?thesis
    using nc by (simp add: line_cookie_def strip split len cookie_of_fields_storable[OF assms])
qed

lemma strip_body_storable:
  assumes "storable c" shows "strip (join [TAB] (cookie_fields c)) \<noteq> ''''"
proof -
  let ?b = "join [TAB] (cookie_fields c)"
  have "strip ?b = ?b"
    using join_fields_ends[OF assms] assms by (intro strip_id) (auto simp: storable_def)
  then show ?thesis using join_fields_ends(1)[OF assms] by simp
qed

lemma split_lines_concat:
  "\<forall>l\<in>set ls. NL \<notin> set l \<Longrightarrow> split_on NL (concat (map (\<lambda>l. l @ [NL]) ls)) = ls @ [[]]"
  by (induction ls) (auto simp: split_on_field)

lemma parse_lines_storable:
  "\<forall>c\<in>set cs. storable c \<Longrightarrow>
   parse_lines (map (\<lambda>c. join [TAB] (cookie_fields c)) cs) acc
   = Inr (foldl (\<lambda>m c. AList.update (name c) c m) acc cs)"
  by (induction cs arbitrary: acc) (auto simp: line_cookie_storable)

lemma map_of_foldl_update:
  "map_of (foldl (\<lambda>m c. AList.update (name c) c m) acc cs)
   = map_of (rev (map (\<lambda>c. (name c, c)) cs) @ acc)"
proof (induction cs arbitrary: acc)
  case Nil
  then show ?case by simp
next
  case (Cons c cs)
  show ?case
    by (simp add: Cons.IH update_conv' map_add_def fun_eq_iff split: option.splits)
qed

lemma distinct_foldl_update:
  "distinct (map fst acc) \<Longrightarrow>
   distinct (map fst (foldl (\<lambda>m c. AList.update (name c) c m) acc cs))"
  by (induction cs arbitrary: acc) (auto simp: distinct_update)

lemma file_text_lines:
  "file_text cs = concat (map (\<lambda>l. l @ [NL]) (header_lines @ [''''] @ map (\<lambda>c. join [TAB] (cookie_fields c)) cs))"
proof -
  have "cookie_line = (\<lambda>c. join [TAB] (cookie_fields c) @ [NL])"
    by (rule ext) (rule cookie_line_join)
  then show ?thesis
    by (simp add: file_text_def header_def header_lines_def comp_def)
qed

lemma header_lines_facts:
  "\<forall>l\<in>set header_lines. NL \<notin> set l"
  "filter (\<lambda>line. strip line \<noteq> '''') header_lines = header_lines"
  "parse_lines (header_lines @ rest) acc = parse_lines rest acc"
  by (simp_all add: header_lines_def strip_def isspace_def line_cookie_def is_comment_def
      startswith_def)

lemma str_int_5: "str_int 5 = ''5''"
  by (simp add: str_int_def str_nat.simps char_of_def bit_0)

lemma strip_Nil: "strip '''' = ''''"
  by (simp add: strip_def)

lemma parse_file_text_single:
  assumes "NL \<notin> set (join [TAB] (cookie_fields c))"
    and "strip (join [TAB] (cookie_fields c)) \<noteq> ''''"
  shows "parse_from_string (file_text [c]) = parse_lines [join [TAB] (cookie_fields c)] []"
proof -
  have nl: "\<forall>l\<in>set (header_lines @ [''''] @ map (\<lambda>c. join [TAB] (cookie_fields c)) [c]). NL \<notin> set l"
    using header_lines_facts(1) assms(1) by simp
  show ?thesis
    unfolding parse_from_string_def file_text_lines split_lines_concat[OF nl]
    using assms(2) by (simp add: header_lines_facts(2,3) strip_Nil)
qed

lemmas line_eval =
  line_cookie_def is_comment_def startswith_def strip_def isspace_def split_step_def
  cookie_of_fields_def isdigit_def isdigit_char_def isdecimal_char_def py_int_def int_space_def
  replace_def repl.simps upper_TRUE upper_FALSE digits_value_def

lemmas fields_eval = cookie_fields_def expiration_text_def str_int_5 cookie_pos_def

lemma lost_empty_value:
  "parse_from_string (file_text [cookie_pos\<lparr>value' := ''''\<rparr>]) = Inr []"
  by (subst parse_file_text_single) (simp_all add: fields_eval line_eval)

lemma lost_trailing_space:
  "parse_from_string (file_text [cookie_pos\<lparr>value' := ''abc ''\<rparr>]) = Inr [(''sid'', cookie_pos)]"
  by (subst parse_file_text_single) (simp_all add: fields_eval line_eval)

lemma lost_hash_domain:
  "parse_from_string (file_text [cookie_pos\<lparr>domain := ''#x.com''\<rparr>]) = Inr []"
  by (subst parse_file_text_single) (simp_all add: fields_eval line_eval)

lemma lost_leading_space:
  "parse_from_string (file_text [cookie_pos\<lparr>domain := '' example.com''\<rparr>]) = Inr [(''sid'', cookie_pos)]"
  by (subst parse_file_text_single) (simp_all add: fields_eval line_eval)

lemma lost_empty_domain:
  "parse_from_string (file_text [cookie_pos\<lparr>domain := ''''\<rparr>]) = Inr []"
  by (subst parse_file_text_single) (simp_all add: fields_eval line_eval)

lemma lost_negative_expiration:
  "parse_from_string (file_text [cookie_pos\<lparr>expiration := Some (- 5)\<rparr>])
   = Inr [(''sid'', cookie_pos\<lparr>expiration := Some 0\<rparr>)]"
  by (subst parse_file_text_single) (simp_all add: fields_eval line_eval)

section \<open>The claims\<close>

lemmas parse_eval =
  parse_from_string_def strip_def isspace_def line_cookie_def is_comment_def startswith_def
  cookie_of_fields_def isdigit_def isdigit_char_def isdecimal_char_def py_int_def int_space_def
  split_step_def replace_def repl.simps upper_TRUE upper_FALSE digits_value_def

lemma str_int_1700000000: "str_int 1700000000 = ''1700000000''"
  by (simp add: str_int_def str_nat.simps char_of_def bit_0)

lemma parse_line_sid: "parse_from_string line_sid = Inr [(''sid'', cookie_sid)]"
  by (simp add: line_sid_def cookie_sid_def parse_eval)

lemma fields_line_eight:
  "split_on TAB (strip line_eight) = [''d'', ''TRUE'', ''/'', ''FALSE'', ''5'', ''n'', ''v'', ''extra'']"
  by (simp add: line_eight_def strip_def isspace_def split_step_def)

lemma fields_line_six: "split_on TAB (strip line_six) = [''a'', ''b'', ''c'', ''d'', ''e'', ''f'']"
  by (simp add: line_six_def strip_def isspace_def split_step_def)

lemma line_cookie_sid: "line_cookie line_sid = Inr (Some cookie_sid)"
  by (simp add: line_sid_def cookie_sid_def parse_eval)

lemma two_sid_lines:
  "filter (\<lambda>line. strip line \<noteq> '''') (split_on NL (join [NL] [line_sid_old, line_sid]))
   = [line_sid_old] @ line_sid # []"
proof -
  have "\<forall>l\<in>set [line_sid_old, line_sid]. NL \<notin> set l"
    by (simp add: line_sid_old_def line_sid_def)
  then have "filter (\<lambda>line. strip line \<noteq> '''') (split_on NL (join [NL] [line_sid_old, line_sid]))
      = filter (\<lambda>line. strip line \<noteq> '''') [line_sid_old, line_sid]"
    by (rule lines_of_join)
  moreover have "strip line_sid_old \<noteq> ''''" "strip line_sid \<noteq> ''''"
    by (simp_all add: line_sid_old_def line_sid_def strip_def isspace_def)
  ultimately show ?thesis by simp
qed

lemma parse_two_sid_lines:
  "parse_from_string (join [NL] [line_sid_old, line_sid]) = Inr [(''sid'', cookie_sid)]"
proof -
  have "line_cookie line_sid_old = Inr (Some \<lparr>domain = ''old.example.com'', flag = True,
      path = ''/old'', secure = False, expiration = Some 7, name = ''sid'', value' = ''stale''\<rparr>)"
    by (simp add: line_sid_old_def parse_eval)
  then show ?thesis
    unfolding parse_from_string_def two_sid_lines
    by (simp add: line_cookie_sid) (simp add: cookie_sid_def)
qed

subsection \<open>C1: writing with the header and parsing back\<close>

text \<open>
  Claim C1, as amended. Let every cookie of the list be \<open>storable\<close>: no tab or newline
  in a string attribute, a domain that is not empty and starts neither with white space
  nor with \<open>#\<close>, a value that is not empty and does not end with white space, and a
  positive expiration. Then \<^verbatim>\<open>save_to_file\<close> stores \<open>file_text\<close> under the path, and
  \<^verbatim>\<open>parse_from_string\<close> on that text returns the dictionary built by storing the cookies
  in order under their names: each name maps to the last cookie of the list with that
  name, equal to the original in all seven attributes; there are no other keys, and no
  key occurs twice.
\<close>

theorem save_parse_roundtrip:
  assumes "\<forall>c\<in>set cookies. storable c"
  shows "fst (save_to_file cookies cookieFile fs) cookieFile = Some (file_text cookies)
       \<and> parse_from_string (file_text cookies)
           = Inr (foldl (\<lambda>m c. AList.update (name c) c m) [] cookies)
       \<and> map_of (foldl (\<lambda>m c. AList.update (name c) c m) [] cookies)
           = map_of (rev (map (\<lambda>c. (name c, c)) cookies))
       \<and> distinct (map fst (foldl (\<lambda>m c. AList.update (name c) c m) [] cookies))"
proof (intro conjI)
  show "distinct (map fst (foldl (\<lambda>m c. AList.update (name c) c m) [] cookies))"
    by (simp add: distinct_foldl_update)
  show "fst (save_to_file cookies cookieFile fs) cookieFile = Some (file_text cookies)"
    by (simp add: save_to_file_def)
  let ?bodies = "map (\<lambda>c. join [TAB] (cookie_fields c)) cookies"
  have nl: "\<forall>l\<in>set (header_lines @ [''''] @ ?bodies). NL \<notin> set l"
    using header_lines_facts(1) body_no_NL assms by auto
  have lines: "split_on NL (file_text cookies) = (header_lines @ [''''] @ ?bodies) @ [[]]"
    unfolding file_text_lines using nl by (rule split_lines_concat)
  have keep: "filter (\<lambda>line. strip line \<noteq> '''') ?bodies = ?bodies"
    using assms strip_body_storable by (auto simp: filter_id_conv)
  have "filter (\<lambda>line. strip line \<noteq> '''') (split_on NL (file_text cookies))
        = header_lines @ ?bodies"
    unfolding lines using keep header_lines_facts(2) by (simp add: strip_def)
  then show "parse_from_string (file_text cookies)
           = Inr (foldl (\<lambda>m c. AList.update (name c) c m) [] cookies)"
    using assms by (simp add: parse_from_string_def header_lines_facts(3) parse_lines_storable)
  show "map_of (foldl (\<lambda>m c. AList.update (name c) c m) [] cookies)
           = map_of (rev (map (\<lambda>c. (name c, c)) cookies))"
    by (simp add: map_of_foldl_update)
qed

theorem save_parse_roundtrip_witness:
  "storable cookie_pos \<and> storable cookie_other
   \<and> parse_from_string (file_text [cookie_pos, cookie_other]) = Inr [(''sid'', cookie_other)]"
proof -
  have s: "storable cookie_pos" "storable cookie_other"
    by (simp_all add: storable_def no_tab_newline_def plain_def cookie_pos_def cookie_other_def isspace_def)
  then have a: "\<forall>c\<in>set [cookie_pos, cookie_other]. storable c" by simp
  have n: "name cookie_pos = ''sid''" "name cookie_other = ''sid''"
    by (simp_all add: cookie_pos_def cookie_other_def)
  show ?thesis
    using save_parse_roundtrip[OF a, THEN conjunct2, THEN conjunct1] s by (simp add: n)
qed

text \<open>
  The claim as first stated asks only for no tab or newline and a non-zero expiration.
  Each cookie below meets that and does not come back: an empty value or an empty domain
  leaves six fields after \<^verbatim>\<open>strip\<close>, so the line is dropped; a domain starting with \<open>#\<close>
  makes the line a comment; white space at the end of the value or at the start of the
  domain is stripped; a negative expiration is written as the empty string and read as 0.
\<close>

theorem roundtrip_loses_cookies:
  "no_tab_newline (cookie_pos\<lparr>value' := ''''\<rparr>)
   \<and> expiration (cookie_pos\<lparr>value' := ''''\<rparr>) = Some 5
   \<and> parse_from_string (file_text [cookie_pos\<lparr>value' := ''''\<rparr>]) = Inr []
   \<and> no_tab_newline (cookie_pos\<lparr>domain := ''''\<rparr>)
   \<and> parse_from_string (file_text [cookie_pos\<lparr>domain := ''''\<rparr>]) = Inr []
   \<and> no_tab_newline (cookie_pos\<lparr>domain := ''#x.com''\<rparr>)
   \<and> parse_from_string (file_text [cookie_pos\<lparr>domain := ''#x.com''\<rparr>]) = Inr []
   \<and> no_tab_newline (cookie_pos\<lparr>value' := ''abc ''\<rparr>)
   \<and> parse_from_string (file_text [cookie_pos\<lparr>value' := ''abc ''\<rparr>]) = Inr [(''sid'', cookie_pos)]
   \<and> cookie_pos\<lparr>value' := ''abc ''\<rparr> \<noteq> cookie_pos
   \<and> no_tab_newline (cookie_pos\<lparr>domain := '' example.com''\<rparr>)
   \<and> parse_from_string (file_text [cookie_pos\<lparr>domain := '' example.com''\<rparr>])
       = Inr [(''sid'', cookie_pos)]
   \<and> cookie_pos\<lparr>domain := '' example.com''\<rparr> \<noteq> cookie_pos
   \<and> no_tab_newline (cookie_pos\<lparr>expiration := Some (- 5)\<rparr>)
   \<and> parse_from_string (file_text [cookie_pos\<lparr>expiration := Some (- 5)\<rparr>])
       = Inr [(''sid'', cookie_pos\<lparr>expiration := Some 0\<rparr>)]"
  unfolding lost_empty_value lost_trailing_space lost_hash_domain lost_leading_space
    lost_empty_domain lost_negative_expiration
  by (simp add: no_tab_newline_def plain_def cookie_pos_def)

subsection \<open>C2: how the two writers render the expiration\<close>

text \<open>
  Claim C2, as amended. \<^verbatim>\<open>save_to_file\<close> writes the empty string for the expiration
  exactly when the attribute is \<^verbatim>\<open>None\<close> or not positive (zero or negative), and the
  decimal string of the expiration when it is positive; when domain and path hold no
  tab, that text is the fifth tab-separated field of the written line.
  \<^verbatim>\<open>to_netscape_string\<close> renders a missing, \<^verbatim>\<open>None\<close> or zero expiry as \<open>0\<close> and any other
  integer as its decimal string, as the fifth part of the line.
\<close>

theorem expiration_rendering:
  "(expiration_text c = '''' \<longleftrightarrow> (expiration c = None \<or> (\<exists>n. expiration c = Some n \<and> n \<le> 0)))
   \<and> (\<forall>n. expiration c = Some n \<and> 0 < n \<longrightarrow> expiration_text c = str_int n)
   \<and> (TAB \<notin> set (domain c) \<and> TAB \<notin> set (path c) \<longrightarrow>
        split_on TAB (cookie_line c) ! 4 = expiration_text c)
   \<and> (raw_expiry r = None \<or> raw_expiry r = Some None \<or> raw_expiry r = Some (Some 0) \<longrightarrow>
        expiry_text r = ''0'')
   \<and> (\<forall>n. raw_expiry r = Some (Some n) \<and> n \<noteq> 0 \<longrightarrow> expiry_text r = str_int n)
   \<and> cookie_parts r ! 4 = expiry_text r"
proof (intro conjI)
  show "expiration_text c = '''' \<longleftrightarrow> (expiration c = None \<or> (\<exists>n. expiration c = Some n \<and> n \<le> 0))"
    by (cases "expiration c") (auto simp: expiration_text_def str_int_not_Nil)
  show "\<forall>n. expiration c = Some n \<and> 0 < n \<longrightarrow> expiration_text c = str_int n"
    by (simp add: expiration_text_def)
  show "TAB \<notin> set (domain c) \<and> TAB \<notin> set (path c) \<longrightarrow>
        split_on TAB (cookie_line c) ! 4 = expiration_text c"
    by (simp add: cookie_line_field4)
  show "raw_expiry r = None \<or> raw_expiry r = Some None \<or> raw_expiry r = Some (Some 0) \<longrightarrow>
        expiry_text r = ''0''"
    by (auto simp: expiry_text_def get_or_def)
  show "\<forall>n. raw_expiry r = Some (Some n) \<and> n \<noteq> 0 \<longrightarrow> expiry_text r = str_int n"
    by (simp add: expiry_text_def get_or_def)
  show "cookie_parts r ! 4 = expiry_text r"
    by (simp add: cookie_parts_def)
qed

theorem expiration_rendering_witness:
  "expiration_text cookie_pos = ''5'' \<and> split_on TAB (cookie_line cookie_pos) ! 4 = ''5''
   \<and> expiry_text raw_zero = ''0''"
proof -
  have s: "str_int 5 = ''5''" by (simp add: str_int_def str_nat.simps char_of_def bit_0)
  show ?thesis
    using expiration_rendering[of cookie_pos raw_zero] s
    by (simp add: cookie_pos_def raw_zero_def)
qed

text \<open>
  The claim as first stated (empty exactly when the expiration is zero or absent, the
  decimal string otherwise) fails for a negative expiration: the field is empty, not
  \<open>-5\<close>.
\<close>

theorem expiration_field_negative:
  "expiration cookie_neg = Some (- 5) \<and> expiration_text cookie_neg = '''' \<and> str_int (- 5) = ''-5''
   \<and> cookie_line cookie_neg = ''example.com'' @ [TAB] @ ''TRUE'' @ [TAB] @ ''/'' @ [TAB] @ ''FALSE''
        @ [TAB] @ [TAB] @ ''sid'' @ [TAB] @ ''abc'' @ [NL]"
  by (simp add: cookie_neg_def expiration_text_def cookie_line_def str_int_def str_nat.simps
      char_of_def bit_0)

subsection \<open>C3: a marker inside the domain field\<close>

text \<open>
  Claim C3 says that only the leading \<^verbatim>\<open>#HttpOnly_\<close> is removed from the first field.
  The parser calls \<^verbatim>\<open>replace\<close>, which removes every occurrence: on the line below the
  domain becomes \<open>ab.com\<close>, not \<open>a#HttpOnly_b.com\<close>.
\<close>

theorem parse_httponly_inner_marker:
  "parse_from_string
     (join [TAB] [''#HttpOnly_a#HttpOnly_b.com'', ''TRUE'', ''/'', ''FALSE'', ''0'', ''sid'', ''abc''])
   = Inr [(''sid'', \<lparr>domain = ''ab.com'', flag = True, path = ''/'', secure = False,
                     expiration = Some 0, name = ''sid'', value' = ''abc''\<rparr>)]"
  by (simp add: parse_eval)

subsection \<open>C4: lines with fewer than seven fields\<close>

text \<open>
  Claim C4. A line that has fewer than seven fields after \<^verbatim>\<open>strip\<close> and \<^verbatim>\<open>split\<close> adds
  nothing and raises nothing: the loop body yields no cookie, the loop goes on with the
  dictionary unchanged, and a text made of lines parses to the same result as the text
  with every copy of that line taken out. In particular a line of six fields is absent
  from the result.
\<close>

theorem short_line_discarded:
  assumes "length (split_on TAB (strip line)) < 7"
  shows "line_cookie line = Inr None
       \<and> parse_lines (line # rest) cookies = parse_lines rest cookies
       \<and> ((\<forall>l\<in>set ls. NL \<notin> set l) \<longrightarrow>
            parse_from_string (join [NL] ls) = parse_from_string (join [NL] (removeAll line ls)))"
proof (intro conjI impI)
  show none: "line_cookie line = Inr None" using assms by (rule short_line_cookie)
  show "parse_lines (line # rest) cookies = parse_lines rest cookies" using none by simp
  assume nl: "\<forall>l\<in>set ls. NL \<notin> set l"
  then have nl': "\<forall>l\<in>set (removeAll line ls). NL \<notin> set l" by simp
  have "filter (\<lambda>l. strip l \<noteq> '''') (removeAll line ls)
        = removeAll line (filter (\<lambda>l. strip l \<noteq> '''') ls)"
    by (induction ls) auto
  then show "parse_from_string (join [NL] ls) = parse_from_string (join [NL] (removeAll line ls))"
    using none by (simp add: parse_from_string_join[OF nl] parse_from_string_join[OF nl']
        parse_lines_removeAll)
qed

theorem short_line_discarded_witness:
  "length (split_on TAB (strip line_six)) = 6 \<and> line_cookie line_six = Inr None
   \<and> parse_from_string (join [NL] [line_six, line_sid]) = Inr [(''sid'', cookie_sid)]"
proof -
  have n: "length (split_on TAB (strip line_six)) < 7" by (simp add: fields_line_six)
  have d: "line_six \<noteq> line_sid" by (simp add: line_six_def line_sid_def)
  have nl: "\<forall>l\<in>set [line_six, line_sid]. NL \<notin> set l" by (simp add: line_six_def line_sid_def)
  show ?thesis
    using short_line_discarded[OF n, of "[]" "[]" "[line_six, line_sid]"] nl d
    by (simp add: fields_line_six parse_line_sid)
qed

subsection \<open>C5: a digit that is not decimal\<close>

text \<open>
  Claim C5 says that \<^verbatim>\<open>parse_from_string\<close> never raises. The expiration field is
  converted with \<^verbatim>\<open>int\<close> when \<^verbatim>\<open>isdigit\<close> accepts it; \<^verbatim>\<open>isdigit\<close> accepts the superscript
  two (U+00B2), which \<^verbatim>\<open>int\<close> rejects with \<^verbatim>\<open>ValueError\<close>.
\<close>

theorem parse_superscript_digit_raises:
  "parse_from_string (join [TAB] [''d'', ''TRUE'', ''/'', ''FALSE'', [CHR 0xB2], ''n'', ''v''])
   = Inl ValueError"
  by (simp add: parse_eval)

subsection \<open>C6: two lines with the same name\<close>

text \<open>
  Claim C6. When \<^verbatim>\<open>parse_from_string\<close> returns a dictionary and \<open>line\<close> is the last
  non-blank line of the input that yields a cookie of a given name (no later line yields
  a cookie of that name, however many earlier lines do), the dictionary maps the name to
  the cookie of that line, and it holds exactly one entry for the name.
\<close>

theorem last_line_wins:
  assumes "parse_from_string input_string = Inr cookies"
    and "filter (\<lambda>line. strip line \<noteq> '''') (split_on NL input_string) = before @ line # after"
    and "line_cookie line = Inr (Some cookie)"
    and "\<forall>l\<in>set after. \<forall>c. line_cookie l = Inr (Some c) \<longrightarrow> name c \<noteq> name cookie"
  shows "map_of cookies (name cookie) = Some cookie
       \<and> filter (\<lambda>e. fst e = name cookie) cookies = [(name cookie, cookie)]"
proof -
  have all: "parse_lines (before @ line # after) [] = Inr cookies"
    using assms(1,2) by (simp add: parse_from_string_def)
  then obtain m1 where m1: "parse_lines before [] = Inr m1"
    and rest: "parse_lines (line # after) m1 = Inr cookies"
    by (auto simp: parse_lines_append split: sum.splits)
  have after: "parse_lines after (AList.update (name cookie) cookie m1) = Inr cookies"
    using rest assms(3) by simp
  have "map_of cookies (name cookie) = map_of (AList.update (name cookie) cookie m1) (name cookie)"
    using after assms(4) by (rule parse_lines_other_names)
  then have entry: "map_of cookies (name cookie) = Some cookie" by (simp add: update_conv')
  have "distinct (map fst cookies)" using all by (rule parse_lines_distinct) simp
  then show ?thesis using entry by (simp add: distinct_one_entry)
qed

theorem last_line_wins_witness:
  "parse_from_string (join [NL] [line_sid_old, line_sid]) = Inr [(''sid'', cookie_sid)]
   \<and> map_of [(''sid'', cookie_sid)] ''sid'' = Some cookie_sid
   \<and> filter (\<lambda>e. fst e = ''sid'') [(''sid'', cookie_sid)] = [(''sid'', cookie_sid)]"
proof -
  have a: "\<forall>l\<in>set []. \<forall>c. line_cookie l = Inr (Some c) \<longrightarrow> name c \<noteq> name cookie_sid" by simp
  show ?thesis
    using last_line_wins[OF parse_two_sid_lines two_sid_lines line_cookie_sid a]
      parse_two_sid_lines
    by (simp add: cookie_sid_def)
qed

subsection \<open>C7: the subdomain flag of the header-less serializer\<close>

text \<open>
  Claim C7. For every dictionary, the second part that \<^verbatim>\<open>to_netscape_string\<close> builds is
  \<open>TRUE\<close> exactly when the dictionary has a non-empty domain whose first character is a
  dot, and \<open>FALSE\<close> otherwise (also when the domain is empty or missing). When no part of
  any dictionary holds a tab or a newline, that part is the second tab-separated field
  of the dictionary's line of the output.
\<close>

theorem include_sub_domain_field:
  "cookie_parts c ! 1 =
     (if (\<exists>d. raw_domain c = Some d \<and> d \<noteq> '''' \<and> hd d = CHR ''.'') then ''TRUE'' else ''FALSE'')
   \<and> ((\<forall>c\<in>set cs. \<forall>p\<in>set (cookie_parts c). TAB \<notin> set p \<and> NL \<notin> set p) \<and> i < length cs \<longrightarrow>
        split_on TAB (split_on NL (to_netscape_string cs) ! i) ! 1 =
          (if (\<exists>d. raw_domain (cs ! i) = Some d \<and> d \<noteq> '''' \<and> hd d = CHR ''.'')
           then ''TRUE'' else ''FALSE''))"
proof (intro conjI impI)
  show "cookie_parts c ! 1 =
     (if (\<exists>d. raw_domain c = Some d \<and> d \<noteq> '''' \<and> hd d = CHR ''.'') then ''TRUE'' else ''FALSE'')"
    by (rule cookie_parts_flag)
next
  assume a: "(\<forall>c\<in>set cs. \<forall>p\<in>set (cookie_parts c). TAB \<notin> set p \<and> NL \<notin> set p) \<and> i < length cs"
  then have ne: "cs \<noteq> []" by auto
  have lines: "split_on NL (to_netscape_string cs) ! i = join [TAB] (cookie_parts (cs ! i))"
    using a by (simp add: split_lines_to_netscape_string[OF ne])
  have "cs ! i \<in> set cs" using a by simp
  then have "\<forall>p\<in>set (cookie_parts (cs ! i)). TAB \<notin> set p" using a by blast
  moreover have "cookie_parts (cs ! i) \<noteq> []" by (simp add: cookie_parts_def)
  ultimately have "split_on TAB (join [TAB] (cookie_parts (cs ! i))) = cookie_parts (cs ! i)"
    by (intro split_on_join) auto
  then show "split_on TAB (split_on NL (to_netscape_string cs) ! i) ! 1 =
          (if (\<exists>d. raw_domain (cs ! i) = Some d \<and> d \<noteq> '''' \<and> hd d = CHR ''.'')
           then ''TRUE'' else ''FALSE'')"
    using lines cookie_parts_flag[of "cs ! i"] by simp
qed

theorem include_sub_domain_field_witness:
  "cookie_parts raw_dot ! 1 = ''TRUE''
   \<and> split_on TAB (split_on NL (to_netscape_string [raw_dot, raw_plain]) ! 1) ! 1 = ''FALSE''"
  using include_sub_domain_field[of raw_dot "[raw_dot, raw_plain]" 1]
  by (simp add: parts_raw_dot parts_raw_plain) (simp add: raw_dot_def raw_plain_def)

subsection \<open>C8: the documented example of the header-less serializer\<close>

text \<open>
  Claim C8. For the one dictionary with domain \<open>.x.com\<close>, path \<open>/\<close>, secure true, name
  \<open>a\<close>, value \<open>1\<close> and expiry 1700000000, \<^verbatim>\<open>to_netscape_string\<close> returns the seven
  fields joined by tabs, with no header and no final newline.
\<close>

theorem to_netscape_string_example:
  "to_netscape_string
     [\<lparr>raw_domain = Some ''.x.com'', raw_expiry = Some (Some 1700000000), raw_path = Some ''/'',
       raw_secure = Some True, raw_name = Some ''a'', raw_value = Some ''1''\<rparr>]
   = ''.x.com'' @ [TAB] @ ''TRUE'' @ [TAB] @ ''/'' @ [TAB] @ ''TRUE'' @ [TAB] @ ''1700000000''
     @ [TAB] @ ''a'' @ [TAB] @ ''1''"
  by (simp add: to_netscape_string_def cookie_parts_def get_or_def include_sub_domain_def
      startswith_def str_bool_def upper_True expiry_text_def str_int_1700000000)

subsection \<open>C9: the keys of the result\<close>

text \<open>
  Claim C9. Whenever \<^verbatim>\<open>parse_from_string\<close> returns a dictionary, every key is the
  \<^verbatim>\<open>name\<close> attribute of the cookie stored under it.
\<close>

theorem keys_are_names:
  "parse_from_string input_string = Inr cookies \<Longrightarrow> \<forall>(k, c)\<in>set cookies. name c = k"
  unfolding parse_from_string_def by (erule parse_lines_keys) simp

theorem keys_are_names_witness:
  "parse_from_string line_sid = Inr [(''sid'', cookie_sid)] \<and> name cookie_sid = ''sid''"
  using keys_are_names[OF parse_line_sid] by (simp add: parse_line_sid)

subsection \<open>C10: more than seven fields\<close>

text \<open>
  Claim C10. For a line that is not a comment and has more than seven fields after
  \<^verbatim>\<open>strip\<close> and \<^verbatim>\<open>split\<close>, the parser builds the cookie from the first seven fields
  alone: the result is that of the line cut to seven fields, and the value is the
  seventh field, the name the sixth, the path the third.
\<close>

theorem extra_fields_ignored:
  assumes "\<not> is_comment line" and "7 < length (split_on TAB (strip line))"
  shows "line_cookie line =
           (case cookie_of_fields (take 7 (split_on TAB (strip line))) of
              Inl e \<Rightarrow> Inl e | Inr cookie \<Rightarrow> Inr (Some cookie))
         \<and> (\<forall>cookie. line_cookie line = Inr (Some cookie) \<longrightarrow>
              value' cookie = split_on TAB (strip line) ! 6
              \<and> name cookie = split_on TAB (strip line) ! 5
              \<and> path cookie = split_on TAB (strip line) ! 2)"
  using assms
  by (auto simp: line_cookie_def Let_def cookie_of_fields_take cookie_of_fields_def
      split: sum.splits if_splits)

theorem extra_fields_ignored_witness:
  "\<not> is_comment line_eight \<and> length (split_on TAB (strip line_eight)) = 8
   \<and> line_cookie line_eight =
       Inr (Some \<lparr>domain = ''d'', flag = True, path = ''/'', secure = False,
                   expiration = Some 5, name = ''n'', value' = ''v''\<rparr>)"
proof -
  have c: "\<not> is_comment line_eight"
    by (simp add: line_eight_def is_comment_def startswith_def)
  have n: "7 < length (split_on TAB (strip line_eight))"
    by (simp add: fields_line_eight)
  show ?thesis
    using extra_fields_ignored[OF c n] c
    by (simp add: fields_line_eight cookie_of_fields_def isdigit_def isdigit_char_def
        isdecimal_char_def py_int_def int_space_def split_step_def startswith_def upper_TRUE
        upper_FALSE digits_value_def)
qed

end
